theory Spec2Isabelle
  imports Main "HOL-Library.Word"
begin

section \<open>Shopping list API: data model\<close>

text \<open>
  The embedding follows \<^verbatim>\<open>main.py\<close>. A table of the relational store is the list of
  its rows in insertion order; a request handler takes the session (the committed
  contents of the tables) and returns either an error or its response together with the
  session after \<^verbatim>\<open>session.commit()\<close>. An error leaves the committed tables as they
  were: every \<^verbatim>\<open>raise\<close> of the handlers happens before the first
  \<^verbatim>\<open>session.add\<close>, and a commit that fails is rolled back.
\<close>

type_synonym uuid = "128 word"

text \<open>A \<^verbatim>\<open>datetime\<close> in UTC, as microseconds since the epoch.\<close>

type_synonym datetime = int

record ShoppingListUser =
  u_id :: uuid
  u_name :: string
  u_password :: string
  u_created :: datetime
  u_updated :: datetime

record SubmitItem =
  si_name :: string
  si_open :: bool

text \<open>
  The request body of the list endpoints as it arrives: \<open>None\<close> is a JSON
  \<^verbatim>\<open>null\<close> (for \<open>ss_open\<close> also an absent key). The class declares
  \<^verbatim>\<open>open: bool\<close> and \<^verbatim>\<open>items: Optional[list[SubmitItem]]\<close>; the handlers
  still test \<^verbatim>\<open>open is None\<close>, so the field is kept optional here and the declared
  type is enforced by \<open>validate_SubmitShoppingList\<close> below.
\<close>

record SubmitShoppingList =
  ss_open :: "bool option"
  ss_items :: "SubmitItem list option"

record ShoppingList =
  sl_id :: uuid
  sl_user_id :: uuid
  sl_open :: bool
  sl_created :: datetime
  sl_updated :: datetime

record Item =
  it_id :: uuid
  it_list_id :: uuid
  it_open :: bool
  it_name :: string
  it_created :: datetime
  it_updated :: datetime

text \<open>
  The four \<^verbatim>\<open>Field(default=datetime.now(timezone.utc))\<close> of the two table classes are
  evaluated once, when the module is imported; they are constants of a running server
  and parameters of the model.
\<close>

record field_defaults =
  ShoppingList_created :: datetime
  ShoppingList_updated :: datetime
  Item_created :: datetime
  Item_updated :: datetime

record session =
  shoppinglist_table :: "ShoppingList list"
  item_table :: "Item list"

datatype fault = AssertionError | ValueError | IntegrityError

text \<open>
  \<open>HTTPException status detail\<close> is raised by a handler; \<open>RequestValidationError\<close>
  is the framework's 422 for a body or path parameter that does not fit its declared type;
  \<open>Unhandled\<close> is any other exception, which no handler catches.
\<close>

datatype error = HTTPException nat string | RequestValidationError | Unhandled fault

text \<open>
  A path segment, by what \<^verbatim>\<open>uuid.UUID(text)\<close> does with it: it returns a UUID, or
  raises \<^verbatim>\<open>ValueError\<close> on a text that is not one.
\<close>

datatype id_text = Wellformed uuid | Malformed string

fun UUID :: "id_text \<Rightarrow> error + uuid" where
  "UUID (Wellformed u) = Inr u"
| "UUID (Malformed t) = Inl (Unhandled ValueError)"

section \<open>Queries and commits\<close>

text \<open>
  \<^verbatim>\<open>select(...).where(...).first()\<close> is \<^const>\<open>List.find\<close> on the table. The handlers
  use the row it returns only where the primary key is part of the condition, so that at
  most one row matches; elsewhere they only test the result against \<^verbatim>\<open>None\<close>.
\<close>

definition open_shopping_list :: "ShoppingListUser \<Rightarrow> session \<Rightarrow> ShoppingList option" where
  "open_shopping_list current_user s =
     find (\<lambda>l. sl_open l = True \<and> sl_user_id l = u_id current_user) (shoppinglist_table s)"

text \<open>Both column orders of the ownership query occur in the source; they select the same rows.\<close>

definition owned_shopping_list :: "uuid \<Rightarrow> ShoppingListUser \<Rightarrow> session \<Rightarrow> ShoppingList option" where
  "owned_shopping_list list_id current_user s =
     find (\<lambda>l. sl_id l = list_id \<and> sl_user_id l = u_id current_user) (shoppinglist_table s)"

definition item_of_list :: "uuid \<Rightarrow> uuid \<Rightarrow> session \<Rightarrow> Item option" where
  "item_of_list item_id list_id s =
     find (\<lambda>i. it_id i = item_id \<and> it_list_id i = list_id) (item_table s)"

text \<open>
  Committing a changed \<^verbatim>\<open>open\<close> attribute writes that column of the row with the
  object's primary key.
\<close>

definition commit_list_open :: "uuid \<Rightarrow> bool \<Rightarrow> session \<Rightarrow> session" where
  "commit_list_open pk b s =
     s\<lparr>shoppinglist_table :=
         map (\<lambda>r. if sl_id r = pk then r\<lparr>sl_open := b\<rparr> else r) (shoppinglist_table s)\<rparr>"

definition commit_item_open :: "uuid \<Rightarrow> bool \<Rightarrow> session \<Rightarrow> session" where
  "commit_item_open pk b s =
     s\<lparr>item_table := map (\<lambda>r. if it_id r = pk then r\<lparr>it_open := b\<rparr> else r) (item_table s)\<rparr>"

text \<open>
  Committing new rows: both \<^verbatim>\<open>id\<close> columns are primary keys, so a commit that would
  store a key twice fails, nothing is stored, and the exception reaches no handler.
\<close>

definition commit_new :: "ShoppingList \<Rightarrow> Item list \<Rightarrow> session \<Rightarrow> error + session" where
  "commit_new l its s =
     (if sl_id l \<in> set (map sl_id (shoppinglist_table s))
         \<or> \<not> distinct (map it_id its)
         \<or> (\<exists>i \<in> set its. it_id i \<in> set (map it_id (item_table s)))
      then Inl (Unhandled IntegrityError)
      else Inr (s\<lparr>shoppinglist_table := shoppinglist_table s @ [l],
                  item_table := item_table s @ its\<rparr>))"

section \<open>Handlers\<close>

definition get_lists :: "ShoppingListUser \<Rightarrow> session \<Rightarrow> bool option \<Rightarrow> ShoppingList list" where
  "get_lists current_user s opn =
     (case opn of
        Some b \<Rightarrow> filter (\<lambda>l. sl_open l = b \<and> sl_user_id l = u_id current_user) (shoppinglist_table s)
      | None \<Rightarrow> filter (\<lambda>l. sl_user_id l = u_id current_user) (shoppinglist_table s))"

text \<open>
  The loop of \<^verbatim>\<open>create_list\<close> over the submitted items. \<^verbatim>\<open>uuid.uuid4()\<close> is a
  source of identifiers, \<open>uuid4 k\<close> being its \<open>k\<close>-th draw within the request: draw 0 is
  the new list's identifier, the items take the following draws in order.
\<close>

fun new_items :: "field_defaults \<Rightarrow> (nat \<Rightarrow> uuid) \<Rightarrow> uuid \<Rightarrow> nat \<Rightarrow> SubmitItem list \<Rightarrow> Item list" where
  "new_items d uuid4 list_id k [] = []"
| "new_items d uuid4 list_id k (submit_item # rest) =
     \<lparr>it_id = uuid4 k, it_list_id = list_id, it_open = si_open submit_item,
      it_name = si_name submit_item, it_created = Item_created d, it_updated = Item_updated d\<rparr>
     # new_items d uuid4 list_id (Suc k) rest"

definition create_list ::
  "field_defaults \<Rightarrow> (nat \<Rightarrow> uuid) \<Rightarrow> SubmitShoppingList \<Rightarrow> ShoppingListUser \<Rightarrow> session
     \<Rightarrow> error + (ShoppingList \<times> session)" where
  "create_list d uuid4 submit_shopping_list current_user s =
     (if open_shopping_list current_user s \<noteq> None
      then Inl (HTTPException 403 ''Cannot have more than one open list'')
      else case ss_items submit_shopping_list of
        None \<Rightarrow> Inl (Unhandled AssertionError)
      | Some submitted \<Rightarrow>
          if length submitted = 0
          then Inl (HTTPException 400 ''Cannot create an empty shopping list'')
          else
            let shopping_list =
                  \<lparr>sl_id = uuid4 0, sl_user_id = u_id current_user, sl_open = True,
                   sl_created = ShoppingList_created d, sl_updated = ShoppingList_updated d\<rparr>
            in (case commit_new shopping_list
                       (new_items d uuid4 (sl_id shopping_list) 1 submitted) s of
                  Inl e \<Rightarrow> Inl e
                | Inr s' \<Rightarrow> Inr (shopping_list, s')))"

text \<open>
  \<^verbatim>\<open>update_list\<close> returns the response's status code with the list, 200 unless the
  handler sets 204, and the session. \<^verbatim>\<open>if submit_shopping_list.open:\<close> is taken for \<^verbatim>\<open>True\<close> only.
\<close>

definition update_list ::
  "SubmitShoppingList \<Rightarrow> uuid \<Rightarrow> ShoppingListUser \<Rightarrow> session
     \<Rightarrow> error + ((nat \<times> ShoppingList) \<times> session)" where
  "update_list submit_shopping_list list_id current_user s =
     (if ss_open submit_shopping_list = Some True \<and> open_shopping_list current_user s \<noteq> None
      then Inl (HTTPException 400 ''Cannot have more than one open list'')
      else case owned_shopping_list list_id current_user s of
        None \<Rightarrow> Inl (HTTPException 404 ''List not found'')
      | Some shopping_list \<Rightarrow>
          (case ss_open submit_shopping_list of
             None \<Rightarrow> Inr ((204, shopping_list), s)
           | Some b \<Rightarrow>
               Inr ((200, shopping_list\<lparr>sl_open := b\<rparr>),
                    commit_list_open (sl_id shopping_list) b s)))"

definition get_items :: "uuid \<Rightarrow> ShoppingListUser \<Rightarrow> session \<Rightarrow> error + Item list" where
  "get_items list_id current_user s =
     (case owned_shopping_list list_id current_user s of
        None \<Rightarrow> Inl (HTTPException 404 ''List not found'')
      | Some shopping_list \<Rightarrow>
          Inr (filter (\<lambda>i. it_list_id i = sl_id shopping_list) (item_table s)))"

text \<open>
  \<^verbatim>\<open>update_item\<close> declares no type for its two path parameters, so it receives the
  raw texts and converts them itself, the list identifier before the first query and the
  item identifier before the second.
\<close>

definition update_item ::
  "id_text \<Rightarrow> id_text \<Rightarrow> SubmitItem \<Rightarrow> ShoppingListUser \<Rightarrow> session \<Rightarrow> error + (Item \<times> session)" where
  "update_item list_id item_id submit_item current_user s =
     (case UUID list_id of
        Inl e \<Rightarrow> Inl e
      | Inr lid \<Rightarrow>
          (case owned_shopping_list lid current_user s of
             None \<Rightarrow> Inl (HTTPException 404 ''Item not found'')
           | Some shopping_list \<Rightarrow>
               (case UUID item_id of
                  Inl e \<Rightarrow> Inl e
                | Inr iid \<Rightarrow>
                    (case item_of_list iid lid s of
                       None \<Rightarrow> Inl (HTTPException 404 ''Item not found'')
                     | Some item \<Rightarrow>
                         Inr (item\<lparr>it_open := si_open submit_item\<rparr>,
                              commit_item_open (it_id item) (si_open submit_item) s)))))"

section \<open>Request validation in front of the handlers\<close>

text \<open>
  Before a handler runs, the framework fits the request to the handler's declared
  parameter types and answers 422 itself when it does not fit. \<^verbatim>\<open>SubmitShoppingList\<close>
  declares \<^verbatim>\<open>open: bool\<close>, which admits no \<^verbatim>\<open>null\<close>;
  \<^verbatim>\<open>update_list\<close> and \<^verbatim>\<open>get_items\<close> declare \<^verbatim>\<open>list_id: uuid.UUID\<close>.
\<close>

definition validate_SubmitShoppingList :: "SubmitShoppingList \<Rightarrow> error + SubmitShoppingList" where
  "validate_SubmitShoppingList body =
     (case ss_open body of None \<Rightarrow> Inl RequestValidationError | Some b \<Rightarrow> Inr body)"

fun validate_uuid :: "id_text \<Rightarrow> error + uuid" where
  "validate_uuid (Wellformed u) = Inr u"
| "validate_uuid (Malformed t) = Inl RequestValidationError"

text \<open>\<^verbatim>\<open>PUT /lists/{list_id}/\<close>\<close>

definition put_list ::
  "SubmitShoppingList \<Rightarrow> id_text \<Rightarrow> ShoppingListUser \<Rightarrow> session
     \<Rightarrow> error + ((nat \<times> ShoppingList) \<times> session)" where
  "put_list body list_id current_user s =
     (case validate_uuid list_id of
        Inl e \<Rightarrow> Inl e
      | Inr lid \<Rightarrow>
          (case validate_SubmitShoppingList body of
             Inl e \<Rightarrow> Inl e
           | Inr submit_shopping_list \<Rightarrow> update_list submit_shopping_list lid current_user s))"

text \<open>\<^verbatim>\<open>POST /lists/\<close>\<close>

definition post_list ::
  "field_defaults \<Rightarrow> (nat \<Rightarrow> uuid) \<Rightarrow> SubmitShoppingList \<Rightarrow> ShoppingListUser \<Rightarrow> session
     \<Rightarrow> error + (ShoppingList \<times> session)" where
  "post_list d uuid4 body current_user s =
     (case validate_SubmitShoppingList body of
        Inl e \<Rightarrow> Inl e
      | Inr submit_shopping_list \<Rightarrow> create_list d uuid4 submit_shopping_list current_user s)"

section \<open>Sequences of requests\<close>

datatype request =
  Create_list "nat \<Rightarrow> uuid" SubmitShoppingList ShoppingListUser
| Update_list SubmitShoppingList uuid ShoppingListUser
| Update_item id_text id_text SubmitItem ShoppingListUser

text \<open>The committed tables after a handler has returned or raised.\<close>

definition committed :: "session \<Rightarrow> error + ('a \<times> session) \<Rightarrow> session" where
  "committed s r = (case r of Inl e \<Rightarrow> s | Inr (x, s') \<Rightarrow> s')"

fun step :: "field_defaults \<Rightarrow> session \<Rightarrow> request \<Rightarrow> session" where
  "step d s (Create_list uuid4 body u) = committed s (create_list d uuid4 body u s)"
| "step d s (Update_list body list_id u) = committed s (update_list body list_id u s)"
| "step d s (Update_item list_id item_id body u) = committed s (update_item list_id item_id body u s)"

definition run :: "field_defaults \<Rightarrow> session \<Rightarrow> request list \<Rightarrow> session" where
  "run d s reqs = foldl (step d) s reqs"

section \<open>State predicates\<close>

text \<open>What the store guarantees for the two primary keys.\<close>

definition primary_keys :: "session \<Rightarrow> bool" where
  "primary_keys s \<longleftrightarrow>
     distinct (map sl_id (shoppinglist_table s)) \<and> distinct (map it_id (item_table s))"

definition open_lists_of :: "uuid \<Rightarrow> session \<Rightarrow> ShoppingList list" where
  "open_lists_of user_id s =
     filter (\<lambda>l. sl_open l \<and> sl_user_id l = user_id) (shoppinglist_table s)"

text \<open>
  INV-1, checked for the owner of every stored list; a user without lists has no open
  list (\<open>INV1_every_user\<close> below).
\<close>

definition INV1 :: "session \<Rightarrow> bool" where
  "INV1 s \<longleftrightarrow> (\<forall>l \<in> set (shoppinglist_table s). length (open_lists_of (sl_user_id l) s) \<le> 1)"

definition owns_list :: "ShoppingListUser \<Rightarrow> uuid \<Rightarrow> session \<Rightarrow> bool" where
  "owns_list u list_id s \<longleftrightarrow>
     (\<exists>l \<in> set (shoppinglist_table s). sl_id l = list_id \<and> sl_user_id l = u_id u)"

text \<open>The item identifier names no item of a list that the user owns.\<close>

definition item_out_of_reach :: "ShoppingListUser \<Rightarrow> uuid \<Rightarrow> session \<Rightarrow> bool" where
  "item_out_of_reach u item_id s \<longleftrightarrow>
     (\<forall>i \<in> set (item_table s). it_id i = item_id \<longrightarrow> \<not> owns_list u (it_list_id i) s)"

text \<open>
  The same tables with the identified list (and its items), or the identified item, not
  existing at all.
\<close>

definition without_list :: "uuid \<Rightarrow> session \<Rightarrow> session" where
  "without_list list_id s =
     s\<lparr>shoppinglist_table := filter (\<lambda>l. sl_id l \<noteq> list_id) (shoppinglist_table s),
       item_table := filter (\<lambda>i. it_list_id i \<noteq> list_id) (item_table s)\<rparr>"

definition without_item :: "uuid \<Rightarrow> session \<Rightarrow> session" where
  "without_item item_id s = s\<lparr>item_table := filter (\<lambda>i. it_id i \<noteq> item_id) (item_table s)\<rparr>"

section \<open>Example data\<close>

definition ex_defaults :: field_defaults where
  "ex_defaults = \<lparr>ShoppingList_created = 1000, ShoppingList_updated = 1001,
                  Item_created = 1002, Item_updated = 1003\<rparr>"

definition ex_user :: ShoppingListUser where
  "ex_user = \<lparr>u_id = 1, u_name = ''test'', u_password = ''$2b$12$hash'',
              u_created = 10, u_updated = 10\<rparr>"

definition ex_open_list :: ShoppingList where
  "ex_open_list = \<lparr>sl_id = 11, sl_user_id = 1, sl_open = True, sl_created = 20, sl_updated = 20\<rparr>"

definition ex_closed_list :: ShoppingList where
  "ex_closed_list = \<lparr>sl_id = 12, sl_user_id = 1, sl_open = False, sl_created = 30, sl_updated = 30\<rparr>"

definition ex_foreign_list :: ShoppingList where
  "ex_foreign_list = \<lparr>sl_id = 13, sl_user_id = 2, sl_open = True, sl_created = 40, sl_updated = 40\<rparr>"

definition ex_milk :: Item where
  "ex_milk = \<lparr>it_id = 21, it_list_id = 11, it_open = True, it_name = ''Milk'',
              it_created = 20, it_updated = 20\<rparr>"

definition ex_eggs :: Item where
  "ex_eggs = \<lparr>it_id = 22, it_list_id = 11, it_open = True, it_name = ''Eggs'',
              it_created = 20, it_updated = 20\<rparr>"

definition ex_foreign_milk :: Item where
  "ex_foreign_milk = \<lparr>it_id = 23, it_list_id = 13, it_open = True, it_name = ''Oat milk'',
                      it_created = 40, it_updated = 40\<rparr>"

definition ex_session :: session where
  "ex_session = \<lparr>shoppinglist_table = [ex_open_list, ex_closed_list, ex_foreign_list],
                 item_table = [ex_milk, ex_eggs, ex_foreign_milk]\<rparr>"

text \<open>The user's lists are both closed.\<close>

definition ex_closed_session :: session where
  "ex_closed_session = \<lparr>shoppinglist_table = [ex_open_list\<lparr>sl_open := False\<rparr>, ex_closed_list, ex_foreign_list],
                        item_table = [ex_milk, ex_eggs, ex_foreign_milk]\<rparr>"

definition ex_uuid4 :: "nat \<Rightarrow> uuid" where
  "ex_uuid4 k = 100 + of_nat k"

definition ex_submit :: SubmitShoppingList where
  "ex_submit = \<lparr>ss_open = Some False,
                ss_items = Some [\<lparr>si_name = ''Milk'', si_open = True\<rparr>,
                                 \<lparr>si_name = ''Eggs'', si_open = False\<rparr>]\<rparr>"

definition ex_requests :: "request list" where
  "ex_requests =
     [Create_list ex_uuid4 ex_submit ex_user,
      Update_list \<lparr>ss_open = Some True, ss_items = None\<rparr> 12 ex_user,
      Update_list \<lparr>ss_open = Some False, ss_items = None\<rparr> 11 ex_user,
      Update_item (Wellformed 11) (Wellformed 21) \<lparr>si_name = ''Butter'', si_open = False\<rparr> ex_user,
      Update_list \<lparr>ss_open = Some True, ss_items = None\<rparr> 12 ex_user,
      Create_list ex_uuid4 ex_submit ex_user,
      Update_list \<lparr>ss_open = Some False, ss_items = None\<rparr> 12 ex_user,
      Create_list ex_uuid4 ex_submit ex_user]"

definition ex_reopen :: SubmitShoppingList where
  "ex_reopen = \<lparr>ss_open = Some True, ss_items = None\<rparr>"

definition ex_close :: SubmitShoppingList where
  "ex_close = \<lparr>ss_open = Some False, ss_items = None\<rparr>"

definition ex_null :: SubmitShoppingList where
  "ex_null = \<lparr>ss_open = None, ss_items = None\<rparr>"

definition ex_empty :: SubmitShoppingList where
  "ex_empty = \<lparr>ss_open = Some False, ss_items = Some []\<rparr>"

definition ex_rename :: SubmitItem where
  "ex_rename = \<lparr>si_name = ''Butter'', si_open = False\<rparr>"

definition ex_after_rename :: session where
  "ex_after_rename = ex_session\<lparr>item_table := [ex_milk\<lparr>it_open := False\<rparr>, ex_eggs, ex_foreign_milk]\<rparr>"

definition ex_after_close :: session where
  "ex_after_close =
     ex_session\<lparr>shoppinglist_table := [ex_open_list\<lparr>sl_open := False\<rparr>, ex_closed_list, ex_foreign_list]\<rparr>"

definition ex_no_items :: SubmitShoppingList where
  "ex_no_items = \<lparr>ss_open = Some True, ss_items = None\<rparr>"

definition ex_created :: ShoppingList where
  "ex_created = \<lparr>sl_id = 100, sl_user_id = 1, sl_open = True, sl_created = 1000, sl_updated = 1001\<rparr>"

definition ex_after_create :: session where
  "ex_after_create =
     \<lparr>shoppinglist_table = [ex_open_list\<lparr>sl_open := False\<rparr>, ex_closed_list, ex_foreign_list, ex_created],
      item_table = [ex_milk, ex_eggs, ex_foreign_milk,
        \<lparr>it_id = 101, it_list_id = 100, it_open = True, it_name = ''Milk'',
         it_created = 1002, it_updated = 1003\<rparr>,
        \<lparr>it_id = 102, it_list_id = 100, it_open = False, it_name = ''Eggs'',
         it_created = 1002, it_updated = 1003\<rparr>]\<rparr>"

lemmas ex_body_defs = ex_reopen_def ex_close_def ex_null_def ex_empty_def ex_rename_def

lemmas ex_defs = ex_defaults_def ex_user_def ex_open_list_def ex_closed_list_def
  ex_foreign_list_def ex_milk_def ex_eggs_def ex_foreign_milk_def ex_session_def
  ex_closed_session_def ex_uuid4_def ex_submit_def

lemmas query_defs = open_shopping_list_def owned_shopping_list_def item_of_list_def
  commit_list_open_def commit_item_open_def commit_new_def

section \<open>Facts about the queries and handlers\<close>

lemma committed_Inl: "committed s (Inl e) = s"
  by (simp add: committed_def)

lemma committed_Inr: "committed s (Inr (x, s')) = s'"
  by (simp add: committed_def)

lemma length_filter_imp_le:
  "(\<And>x. x \<in> set xs \<Longrightarrow> Q x \<Longrightarrow> P x) \<Longrightarrow> length (filter Q xs) \<le> length (filter P xs)"
  by (induction xs) auto

lemma length_filter_key_le_1:
  "distinct (map g xs) \<Longrightarrow> length (filter (\<lambda>r. g r = k) xs) \<le> 1"
proof (induction xs)
  case Nil
  then show ?case by simp
next
  case (Cons x xs)
  show ?case
  proof (cases "g x = k")
    case True
    with Cons.prems have "k \<notin> g ` set xs" by simp
    then have "\<forall>r \<in> set xs. g r \<noteq> k" by blast
    then have "filter (\<lambda>r. g r = k) xs = []" by (simp add: filter_empty_conv)
    with True show ?thesis by simp
  next
    case False
    with Cons show ?thesis by simp
  qed
qed

lemma INV1_every_user: "INV1 s \<longleftrightarrow> (\<forall>u. length (open_lists_of u s) \<le> 1)"
proof
  assume inv: "INV1 s"
  show "\<forall>u. length (open_lists_of u s) \<le> 1"
  proof
    fix u
    show "length (open_lists_of u s) \<le> 1"
    proof (cases "\<exists>l \<in> set (shoppinglist_table s). sl_user_id l = u")
      case True
      with inv show ?thesis by (auto simp: INV1_def)
    next
      case False
      then have "open_lists_of u s = []"
        by (auto simp: open_lists_of_def filter_empty_conv)
      then show ?thesis by simp
    qed
  qed
next
  assume "\<forall>u. length (open_lists_of u s) \<le> 1"
  then show "INV1 s" by (simp add: INV1_def)
qed

lemma open_shopping_list_None:
  "open_shopping_list u s = None \<longleftrightarrow> open_lists_of (u_id u) s = []"
  by (auto simp: open_shopping_list_def open_lists_of_def find_None_iff filter_empty_conv)

lemma owned_shopping_list_Some:
  "owned_shopping_list list_id u s = Some l \<Longrightarrow>
     l \<in> set (shoppinglist_table s) \<and> sl_id l = list_id \<and> sl_user_id l = u_id u"
  by (auto simp: owned_shopping_list_def find_Some_iff)

lemma owned_shopping_list_None:
  "owned_shopping_list list_id u s = None \<longleftrightarrow> \<not> owns_list u list_id s"
  by (auto simp: owned_shopping_list_def owns_list_def find_None_iff)

lemma create_list_Inr:
  assumes "create_list d uuid4 body u s = Inr (l, s')"
  shows "open_shopping_list u s = None"
    and "l = \<lparr>sl_id = uuid4 0, sl_user_id = u_id u, sl_open = True,
              sl_created = ShoppingList_created d, sl_updated = ShoppingList_updated d\<rparr>"
    and "\<exists>submitted. ss_items body = Some submitted \<and> submitted \<noteq> [] \<and>
           commit_new l (new_items d uuid4 (uuid4 0) 1 submitted) s = Inr s'"
  using assms
  by (auto simp: create_list_def Let_def split: if_splits option.splits sum.splits)

lemma commit_new_Inr:
  assumes "commit_new l its s = Inr s'"
  shows "shoppinglist_table s' = shoppinglist_table s @ [l]"
    and "item_table s' = item_table s @ its"
    and "sl_id l \<notin> set (map sl_id (shoppinglist_table s))"
    and "distinct (map it_id its)"
    and "set (map it_id its) \<inter> set (map it_id (item_table s)) = {}"
  using assms by (auto simp: commit_new_def split: if_splits)

lemma update_list_Inr:
  assumes "update_list body list_id u s = Inr ((code, l), s')"
  shows "\<exists>l0. owned_shopping_list list_id u s = Some l0 \<and>
           (case ss_open body of
              None \<Rightarrow> code = 204 \<and> l = l0 \<and> s' = s
            | Some b \<Rightarrow> code = 200 \<and> l = l0\<lparr>sl_open := b\<rparr> \<and> s' = commit_list_open list_id b s
                         \<and> (b \<longrightarrow> open_shopping_list u s = None))"
  using assms
  by (auto simp: update_list_def split: if_splits option.splits dest: owned_shopping_list_Some)

lemma update_item_Inr:
  assumes "update_item list_id item_id body u s = Inr (i, s')"
  shows "\<exists>lid iid i0. list_id = Wellformed lid \<and> item_id = Wellformed iid \<and>
           owns_list u lid s \<and> item_of_list iid lid s = Some i0 \<and>
           i = i0\<lparr>it_open := si_open body\<rparr> \<and> s' = commit_item_open iid (si_open body) s"
proof -
  from assms obtain lid where lid: "list_id = Wellformed lid"
    by (cases list_id) (auto simp: update_item_def)
  from assms lid obtain l0 where l0: "owned_shopping_list lid u s = Some l0"
    by (auto simp: update_item_def split: option.splits)
  from assms lid l0 obtain iid where iid: "item_id = Wellformed iid"
    by (cases item_id) (auto simp: update_item_def)
  from assms lid l0 iid obtain i0 where i0: "item_of_list iid lid s = Some i0"
    by (auto simp: update_item_def split: option.splits)
  from i0 have "it_id i0 = iid" by (auto simp: item_of_list_def find_Some_iff)
  moreover from l0 have "owns_list u lid s"
    using owned_shopping_list_None [of lid u s] by simp
  ultimately show ?thesis using assms lid l0 iid i0 by (simp add: update_item_def)
qed

lemma commit_list_open_ids:
  "map sl_id (shoppinglist_table (commit_list_open pk b s)) = map sl_id (shoppinglist_table s)"
  "item_table (commit_list_open pk b s) = item_table s"
  by (simp_all add: commit_list_open_def comp_def if_distrib cong: if_cong)

lemma commit_item_open_ids:
  "map it_id (item_table (commit_item_open pk b s)) = map it_id (item_table s)"
  "shoppinglist_table (commit_item_open pk b s) = shoppinglist_table s"
  by (simp_all add: commit_item_open_def comp_def if_distrib cong: if_cong)

lemma primary_keys_step: "primary_keys s \<Longrightarrow> primary_keys (step d s req)"
proof (cases req)
  case (Create_list uuid4 body u)
  assume pk: "primary_keys s"
  show ?thesis
  proof (cases "create_list d uuid4 body u s")
    case (Inl e)
    with Create_list pk show ?thesis by (simp add: committed_Inl)
  next
    case (Inr r)
    obtain l s' where r: "r = (l, s')" by (cases r)
    from create_list_Inr(3) [OF Inr [unfolded r]] obtain submitted
      where "commit_new l (new_items d uuid4 (uuid4 0) 1 submitted) s = Inr s'" by blast
    from commit_new_Inr [OF this] pk have "primary_keys s'"
      by (auto simp: primary_keys_def)
    with Create_list Inr r show ?thesis by (simp add: committed_Inr)
  qed
next
  case (Update_list body list_id u)
  assume pk: "primary_keys s"
  show ?thesis
  proof (cases "update_list body list_id u s")
    case (Inl e)
    with Update_list pk show ?thesis by (simp add: committed_Inl)
  next
    case (Inr r)
    obtain code l s' where r: "r = ((code, l), s')" by (cases r) auto
    from update_list_Inr [OF Inr [unfolded r]] pk have "primary_keys s'"
      by (auto simp: primary_keys_def commit_list_open_ids split: option.splits)
    with Update_list Inr r show ?thesis by (simp add: committed_Inr)
  qed
next
  case (Update_item list_id item_id body u)
  assume pk: "primary_keys s"
  show ?thesis
  proof (cases "update_item list_id item_id body u s")
    case (Inl e)
    with Update_item pk show ?thesis by (simp add: committed_Inl)
  next
    case (Inr r)
    obtain i s' where r: "r = (i, s')" by (cases r)
    from update_item_Inr [OF Inr [unfolded r]] pk have "primary_keys s'"
      by (auto simp: primary_keys_def commit_item_open_ids)
    with Update_item Inr r show ?thesis by (simp add: committed_Inr)
  qed
qed


lemma open_lists_of_commit_new:
  assumes "commit_new l its s = Inr s'"
  shows "open_lists_of v s' =
           open_lists_of v s @ (if sl_open l \<and> sl_user_id l = v then [l] else [])"
  using commit_new_Inr(1) [OF assms] by (simp add: open_lists_of_def)

lemma INV1_create_list:
  assumes inv: "\<forall>v. length (open_lists_of v s) \<le> 1"
    and ok: "create_list d uuid4 body u s = Inr (l, s')"
  shows "\<forall>v. length (open_lists_of v s') \<le> 1"
proof
  fix v
  from create_list_Inr [OF ok] obtain submitted
    where none: "open_lists_of (u_id u) s = []"
      and owner: "sl_user_id l = u_id u"
      and new: "commit_new l (new_items d uuid4 (uuid4 0) 1 submitted) s = Inr s'"
    by (auto simp: open_shopping_list_None)
  show "length (open_lists_of v s') \<le> 1"
  proof (cases "v = u_id u")
    case True
    with none show ?thesis by (simp add: open_lists_of_commit_new [OF new])
  next
    case False
    with owner inv show ?thesis by (simp add: open_lists_of_commit_new [OF new])
  qed
qed

lemma length_filter_map_le:
  "(\<And>x. x \<in> set xs \<Longrightarrow> Q (f x) \<Longrightarrow> P x) \<Longrightarrow> length (filter Q (map f xs)) \<le> length (filter P xs)"
  by (induction xs) auto

lemma shoppinglist_table_commit_list_open:
  "shoppinglist_table (commit_list_open pk b s) =
     map (\<lambda>r. if sl_id r = pk then r\<lparr>sl_open := b\<rparr> else r) (shoppinglist_table s)"
  by (simp add: commit_list_open_def)

lemma INV1_close:
  assumes "length (open_lists_of v s) \<le> 1"
  shows "length (open_lists_of v (commit_list_open pk False s)) \<le> 1"
proof -
  have "length (open_lists_of v (commit_list_open pk False s)) \<le> length (open_lists_of v s)"
    unfolding open_lists_of_def shoppinglist_table_commit_list_open
    by (rule length_filter_map_le) (auto split: if_splits)
  with assms show ?thesis by simp
qed

lemma INV1_open:
  assumes inv: "length (open_lists_of v s) \<le> 1"
    and pk: "distinct (map sl_id (shoppinglist_table s))"
    and none: "open_lists_of (u_id u) s = []"
    and target: "l0 \<in> set (shoppinglist_table s)" "sl_id l0 = pk" "sl_user_id l0 = u_id u"
  shows "length (open_lists_of v (commit_list_open pk True s)) \<le> 1"
proof (cases "v = u_id u")
  case True
  from none have closed: "\<And>r. r \<in> set (shoppinglist_table s) \<Longrightarrow> sl_user_id r = u_id u \<Longrightarrow> \<not> sl_open r"
    by (auto simp: open_lists_of_def filter_empty_conv)
  have "length (open_lists_of v (commit_list_open pk True s))
          \<le> length (filter (\<lambda>r. sl_id r = pk) (shoppinglist_table s))"
    unfolding open_lists_of_def shoppinglist_table_commit_list_open
    by (rule length_filter_map_le) (use True closed in \<open>auto split: if_splits\<close>)
  also have "\<dots> \<le> 1" using pk by (rule length_filter_key_le_1)
  finally show ?thesis .
next
  case False
  have only: "\<And>r. r \<in> set (shoppinglist_table s) \<Longrightarrow> sl_id r = pk \<Longrightarrow> r = l0"
    using pk target(1,2) by (auto simp: distinct_map dest: inj_onD)
  have "length (open_lists_of v (commit_list_open pk True s)) \<le> length (open_lists_of v s)"
    unfolding open_lists_of_def shoppinglist_table_commit_list_open
    by (rule length_filter_map_le) (use False only target(3) in \<open>auto split: if_splits\<close>)
  with inv show ?thesis by simp
qed

lemma INV1_update_list:
  assumes inv: "\<forall>v. length (open_lists_of v s) \<le> 1"
    and pk: "primary_keys s"
    and ok: "update_list body list_id u s = Inr ((code, l), s')"
  shows "\<forall>v. length (open_lists_of v s') \<le> 1"
proof
  fix v
  from update_list_Inr [OF ok] obtain l0 where
    l0: "owned_shopping_list list_id u s = Some l0" and
    eff: "case ss_open body of
            None \<Rightarrow> code = 204 \<and> l = l0 \<and> s' = s
          | Some b \<Rightarrow> code = 200 \<and> l = l0\<lparr>sl_open := b\<rparr> \<and> s' = commit_list_open list_id b s
                       \<and> (b \<longrightarrow> open_shopping_list u s = None)"
    by blast
  note tgt = owned_shopping_list_Some [OF l0]
  show "length (open_lists_of v s') \<le> 1"
  proof (cases "ss_open body")
    case None
    with eff inv show ?thesis by simp
  next
    case (Some b)
    show ?thesis
    proof (cases b)
      case True
      with Some eff have "open_lists_of (u_id u) s = []" and "s' = commit_list_open list_id True s"
        by (simp_all add: open_shopping_list_None)
      moreover from inv have "length (open_lists_of v s) \<le> 1" ..
      moreover from pk have "distinct (map sl_id (shoppinglist_table s))"
        by (simp add: primary_keys_def)
      ultimately show ?thesis using INV1_open [of v s u l0 list_id] tgt by simp
    next
      case False
      with Some eff have "s' = commit_list_open list_id False s" by simp
      moreover from inv have "length (open_lists_of v s) \<le> 1" ..
      ultimately show ?thesis using INV1_close [of v s list_id] by simp
    qed
  qed
qed

lemma INV1_step:
  assumes inv: "\<forall>v. length (open_lists_of v s) \<le> 1" and pk: "primary_keys s"
  shows "\<forall>v. length (open_lists_of v (step d s req)) \<le> 1"
proof (cases req)
  case (Create_list uuid4 body u)
  show ?thesis
  proof (cases "create_list d uuid4 body u s")
    case (Inl e)
    with Create_list inv show ?thesis by (simp add: committed_Inl)
  next
    case (Inr r)
    obtain l s' where r: "r = (l, s')" by (cases r)
    from INV1_create_list [OF inv Inr [unfolded r]] Create_list Inr r show ?thesis
      by (simp add: committed_Inr)
  qed
next
  case (Update_list body list_id u)
  show ?thesis
  proof (cases "update_list body list_id u s")
    case (Inl e)
    with Update_list inv show ?thesis by (simp add: committed_Inl)
  next
    case (Inr r)
    obtain code l s' where r: "r = ((code, l), s')" by (cases r) auto
    from INV1_update_list [OF inv pk Inr [unfolded r]] Update_list Inr r show ?thesis
      by (simp add: committed_Inr)
  qed
next
  case (Update_item list_id item_id body u)
  show ?thesis
  proof (cases "update_item list_id item_id body u s")
    case (Inl e)
    with Update_item inv show ?thesis by (simp add: committed_Inl)
  next
    case (Inr r)
    obtain i s' where r: "r = (i, s')" by (cases r)
    from update_item_Inr [OF Inr [unfolded r]] inv have "\<forall>v. length (open_lists_of v s') \<le> 1"
      by (auto simp: open_lists_of_def commit_item_open_ids)
    with Update_item Inr r show ?thesis by (simp add: committed_Inr)
  qed
qed

lemma INV1_run:
  "primary_keys s \<Longrightarrow> \<forall>v. length (open_lists_of v s) \<le> 1 \<Longrightarrow>
     primary_keys (run d s reqs) \<and> (\<forall>v. length (open_lists_of v (run d s reqs)) \<le> 1)"
  unfolding run_def
proof (induction reqs arbitrary: s)
  case Nil
  then show ?case by simp
next
  case (Cons req reqs)
  from Cons.prems(1) have pk': "primary_keys (step d s req)"
    by (rule primary_keys_step)
  from Cons.prems(2,1) have inv': "\<forall>v. length (open_lists_of v (step d s req)) \<le> 1"
    by (rule INV1_step)
  from Cons.IH [OF pk' inv'] show ?case by simp
qed

text \<open>
  C1. Starting from committed tables in which every user has at most one open list (and
  whose identifiers are unique, as the primary keys guarantee), the tables committed
  after every prefix of any sequence of \<^verbatim>\<open>create_list\<close>, \<^verbatim>\<open>update_list\<close> and
  \<^verbatim>\<open>update_item\<close> requests, by any users and with any bodies, hold at most one open list
  for every user.
\<close>

theorem open_list_invariant_preserved:
  assumes "primary_keys s" and "INV1 s"
  shows "INV1 (run d s (take k reqs)) \<and>
         (\<forall>user_id. length (open_lists_of user_id (run d s (take k reqs))) \<le> 1)"
  using INV1_run [of s d "take k reqs"] assms by (simp add: INV1_every_user)

lemma ex_run:
  "shoppinglist_table (run ex_defaults ex_session ex_requests) =
     [ex_open_list\<lparr>sl_open := False\<rparr>, ex_closed_list, ex_foreign_list,
      \<lparr>sl_id = 100, sl_user_id = 1, sl_open = True, sl_created = 1000, sl_updated = 1001\<rparr>]"
  by (simp add: ex_requests_def run_def committed_def create_list_def update_list_def
        update_item_def query_defs ex_defs Let_def)

theorem open_list_invariant_preserved_witness:
  "primary_keys ex_session \<and> INV1 ex_session \<and>
   INV1 (run ex_defaults ex_session (take 8 ex_requests)) \<and>
   length (open_lists_of 1 (run ex_defaults ex_session (take 8 ex_requests))) = 1"
proof -
  have pk: "primary_keys ex_session"
    by (simp add: primary_keys_def ex_defs)
  have inv: "INV1 ex_session"
    by (simp add: INV1_def open_lists_of_def ex_defs)
  have all: "take 8 ex_requests = ex_requests" by (simp add: ex_requests_def)
  have "length (open_lists_of 1 (run ex_defaults ex_session ex_requests)) = 1"
    unfolding open_lists_of_def ex_run
    by (simp add: ex_open_list_def ex_closed_list_def ex_foreign_list_def)
  with open_list_invariant_preserved [OF pk inv, of ex_defaults 8 ex_requests] pk inv
  show ?thesis unfolding all by simp
qed

lemma open_shopping_list_Some_iff:
  "open_shopping_list u s \<noteq> None \<longleftrightarrow>
     (\<exists>l \<in> set (shoppinglist_table s). sl_open l \<and> sl_user_id l = u_id u)"
  by (auto simp: open_shopping_list_def find_None_iff)

lemma update_list_unowned:
  assumes "\<not> owns_list u list_id s"
  shows "update_list body list_id u s =
           (if ss_open body = Some True \<and> open_shopping_list u s \<noteq> None
            then Inl (HTTPException 400 ''Cannot have more than one open list'')
            else Inl (HTTPException 404 ''List not found''))"
  using assms owned_shopping_list_None [of list_id u s] by (simp add: update_list_def)

lemma get_items_unowned:
  assumes "\<not> owns_list u list_id s"
  shows "get_items list_id u s = Inl (HTTPException 404 ''List not found'')"
  using assms owned_shopping_list_None [of list_id u s] by (simp add: get_items_def)

lemma update_item_unowned:
  assumes "\<not> owns_list u list_id s"
  shows "update_item (Wellformed list_id) item_id body u s = Inl (HTTPException 404 ''Item not found'')"
  using assms owned_shopping_list_None [of list_id u s] by (simp add: update_item_def)

lemma update_item_out_of_reach:
  assumes "item_out_of_reach u item_id s"
  shows "update_item (Wellformed list_id) (Wellformed item_id) body u s =
           Inl (HTTPException 404 ''Item not found'')"
proof (cases "owns_list u list_id s")
  case False
  then show ?thesis by (rule update_item_unowned)
next
  case True
  with assms have "item_of_list item_id list_id s = None"
    by (auto simp: item_of_list_def item_out_of_reach_def find_None_iff)
  then show ?thesis by (simp add: update_item_def split: option.splits)
qed

lemma without_list_unowned:
  assumes "\<not> owns_list u list_id s"
  shows "\<not> owns_list u list_id (without_list list_id s)"
    and "open_shopping_list u (without_list list_id s) \<noteq> None \<longleftrightarrow> open_shopping_list u s \<noteq> None"
proof -
  from assms show "\<not> owns_list u list_id (without_list list_id s)"
    by (simp add: owns_list_def without_list_def)
  from assms show "open_shopping_list u (without_list list_id s) \<noteq> None
      \<longleftrightarrow> open_shopping_list u s \<noteq> None"
    unfolding open_shopping_list_Some_iff owns_list_def
    by (auto simp: without_list_def)
qed

lemma without_item_out_of_reach: "item_out_of_reach u item_id (without_item item_id s)"
  by (simp add: item_out_of_reach_def without_item_def)

text \<open>
  The user's only open list is the target of the request, and the request to open it is
  answered with the conflict error, not with the unchanged list.
\<close>

theorem reopen_open_list_counterexample:
  "open_lists_of (u_id ex_user) ex_session = [ex_open_list] \<and>
   update_list ex_reopen (sl_id ex_open_list) ex_user ex_session =
     Inl (HTTPException 400 ''Cannot have more than one open list'')"
  by (simp add: open_lists_of_def update_list_def query_defs ex_defs ex_body_defs)

text \<open>
  C2 (as the code has it). The check of \<^verbatim>\<open>update_list\<close> looks for any open list of the
  user, the target included. So asking to open a list that is already open is refused
  with 400 ``Cannot have more than one open list'', also when it is the user's only open
  list, and nothing is committed.
\<close>

theorem reopen_open_list_rejected:
  assumes "l \<in> set (shoppinglist_table s)" and "sl_user_id l = u_id u" and "sl_open l"
    and "ss_open body = Some True"
  shows "update_list body (sl_id l) u s =
           Inl (HTTPException 400 ''Cannot have more than one open list'') \<and>
         committed s (update_list body (sl_id l) u s) = s"
proof -
  from assms(1-3) have "open_shopping_list u s \<noteq> None"
    unfolding open_shopping_list_Some_iff by blast
  with assms(4) show ?thesis by (simp add: update_list_def committed_Inl)
qed

theorem reopen_open_list_rejected_witness:
  "ex_open_list \<in> set (shoppinglist_table ex_session) \<and> sl_user_id ex_open_list = u_id ex_user \<and>
   sl_open ex_open_list \<and> ss_open ex_reopen = Some True \<and>
   update_list ex_reopen (sl_id ex_open_list) ex_user ex_session =
     Inl (HTTPException 400 ''Cannot have more than one open list'') \<and>
   committed ex_session (update_list ex_reopen (sl_id ex_open_list) ex_user ex_session) = ex_session"
proof -
  have h1: "ex_open_list \<in> set (shoppinglist_table ex_session)" by (simp add: ex_session_def)
  have h2: "sl_user_id ex_open_list = u_id ex_user" by (simp add: ex_defs)
  have h3: "sl_open ex_open_list" by (simp add: ex_defs)
  have h4: "ss_open ex_reopen = Some True" by (simp add: ex_body_defs)
  from reopen_open_list_rejected [OF h1 h2 h3 h4] h1 h2 h3 h4 show ?thesis
    by (simp add: committed_Inl)
qed

lemma update_list_no_content:
  assumes "owned_shopping_list list_id u s = Some l" and "ss_open body = None"
  shows "update_list body list_id u s = Inr ((204, l), s)"
  using assms by (simp add: update_list_def)

lemma put_list_null_open:
  "ss_open body = None \<Longrightarrow> put_list body list_id u s = Inl RequestValidationError"
  by (cases list_id) (simp_all add: put_list_def validate_SubmitShoppingList_def)

text \<open>
  C3. The handler body answers a body without \<^verbatim>\<open>open\<close> with 204 and the unmodified
  list, but it is never run on such a body: \<^verbatim>\<open>SubmitShoppingList\<close> declares
  \<^verbatim>\<open>open: bool\<close>, so the request is refused with 422 before \<^verbatim>\<open>update_list\<close> is
  entered. Evaluated for the owner's own list:
\<close>

theorem put_list_null_open_unprocessable:
  "owned_shopping_list 11 ex_user ex_session = Some ex_open_list \<and>
   put_list ex_null (Wellformed 11) ex_user ex_session = Inl RequestValidationError \<and>
   update_list ex_null 11 ex_user ex_session = Inr ((204, ex_open_list), ex_session)"
  by (simp add: put_list_def validate_SubmitShoppingList_def update_list_def query_defs
        ex_defs ex_body_defs)

text \<open>
  No list has the identifier 99, the caller has an open list and asks for
  \<^verbatim>\<open>open = true\<close>: the answer is the conflict error, not ``not found''.
\<close>

theorem update_list_not_found_counterexample:
  "\<not> owns_list ex_user 99 ex_session \<and>
   update_list ex_reopen 99 ex_user ex_session =
     Inl (HTTPException 400 ''Cannot have more than one open list'')"
  by (simp add: owns_list_def update_list_def query_defs ex_defs ex_body_defs)

text \<open>
  C4 (as the code has it). For a list identifier that resolves to no list of the caller,
  \<^verbatim>\<open>update_list\<close> answers 400 when \<^verbatim>\<open>open\<close> is true and the caller has an open
  list, and 404 ``List not found'' in every other case: the open-list check runs before
  ownership is resolved.
\<close>

theorem update_list_unowned_outcome:
  assumes "\<not> owns_list u list_id s"
  shows "update_list body list_id u s =
           (if ss_open body = Some True \<and> open_shopping_list u s \<noteq> None
            then Inl (HTTPException 400 ''Cannot have more than one open list'')
            else Inl (HTTPException 404 ''List not found''))"
  using assms by (rule update_list_unowned)

theorem update_list_unowned_outcome_witness:
  "\<not> owns_list ex_user 13 ex_session \<and>
   update_list ex_close 13 ex_user ex_session = Inl (HTTPException 404 ''List not found'') \<and>
   update_list ex_null 13 ex_user ex_session = Inl (HTTPException 404 ''List not found'') \<and>
   update_list ex_reopen 13 ex_user ex_closed_session = Inl (HTTPException 404 ''List not found'') \<and>
   update_list ex_reopen 13 ex_user ex_session =
     Inl (HTTPException 400 ''Cannot have more than one open list'')"
proof -
  have h: "\<not> owns_list ex_user 13 ex_session" by (simp add: owns_list_def ex_defs)
  have h': "\<not> owns_list ex_user 13 ex_closed_session" by (simp add: owns_list_def ex_defs)
  have o: "open_shopping_list ex_user ex_session \<noteq> None"
    by (simp add: open_shopping_list_def ex_defs)
  have o': "open_shopping_list ex_user ex_closed_session = None"
    by (simp add: open_shopping_list_def ex_defs)
  from update_list_unowned_outcome [OF h, of ex_close]
    update_list_unowned_outcome [OF h, of ex_null]
    update_list_unowned_outcome [OF h', of ex_reopen]
    update_list_unowned_outcome [OF h, of ex_reopen] h o o'
  show ?thesis by (simp add: ex_body_defs)
qed

text \<open>
  With an open list already present, an empty item sequence is answered with the
  conflict error (403), not with the validation error.
\<close>

theorem create_list_empty_counterexample:
  "ss_items ex_empty = Some [] \<and>
   create_list ex_defaults ex_uuid4 ex_empty ex_user ex_session =
     Inl (HTTPException 403 ''Cannot have more than one open list'')"
  by (simp add: create_list_def query_defs ex_defs ex_body_defs)

text \<open>
  C5 (as the code has it). \<^verbatim>\<open>create_list\<close> with an empty item sequence always fails and
  commits nothing, whatever the submitted \<^verbatim>\<open>open\<close> flag: with 403 when the user
  already has an open list, since that check comes first, and with 400 ``Cannot create an
  empty shopping list'' otherwise.
\<close>

theorem create_list_empty_fails:
  assumes "ss_items body = Some []"
  shows "create_list d uuid4 body u s =
           (if open_shopping_list u s \<noteq> None
            then Inl (HTTPException 403 ''Cannot have more than one open list'')
            else Inl (HTTPException 400 ''Cannot create an empty shopping list'')) \<and>
         committed s (create_list d uuid4 body u s) = s"
  using assms by (simp add: create_list_def committed_Inl)

theorem create_list_empty_fails_witness:
  "ss_items ex_empty = Some [] \<and>
   create_list ex_defaults ex_uuid4 ex_empty ex_user ex_closed_session =
     Inl (HTTPException 400 ''Cannot create an empty shopping list'') \<and>
   create_list ex_defaults ex_uuid4 (ex_empty\<lparr>ss_open := Some True\<rparr>) ex_user ex_closed_session =
     Inl (HTTPException 400 ''Cannot create an empty shopping list'') \<and>
   committed ex_closed_session
     (create_list ex_defaults ex_uuid4 ex_empty ex_user ex_closed_session) = ex_closed_session"
proof -
  have h: "ss_items ex_empty = Some []" by (simp add: ex_body_defs)
  have h': "ss_items (ex_empty\<lparr>ss_open := Some True\<rparr>) = Some []" by (simp add: ex_body_defs)
  have o': "open_shopping_list ex_user ex_closed_session = None"
    by (simp add: open_shopping_list_def ex_defs)
  from create_list_empty_fails [OF h, of ex_defaults ex_uuid4 ex_user ex_closed_session]
    create_list_empty_fails [OF h', of ex_defaults ex_uuid4 ex_user ex_closed_session] h o'
  show ?thesis by (simp add: committed_Inl)
qed

text \<open>
  The list exists under another owner; \<^verbatim>\<open>update_list\<close> with \<^verbatim>\<open>open = true\<close> by a
  caller who has an open list answers 400, with the foreign list present and without it:
  the same outcome, but not ``not found''.
\<close>

theorem foreign_list_not_found_counterexample:
  "\<not> owns_list ex_user (sl_id ex_foreign_list) ex_session \<and>
   ex_foreign_list \<in> set (shoppinglist_table ex_session) \<and>
   ex_foreign_list \<notin> set (shoppinglist_table (without_list (sl_id ex_foreign_list) ex_session)) \<and>
   update_list ex_reopen (sl_id ex_foreign_list) ex_user ex_session =
     Inl (HTTPException 400 ''Cannot have more than one open list'') \<and>
   update_list ex_reopen (sl_id ex_foreign_list) ex_user
       (without_list (sl_id ex_foreign_list) ex_session) =
     Inl (HTTPException 400 ''Cannot have more than one open list'')"
  by (simp add: owns_list_def without_list_def update_list_def query_defs ex_defs ex_body_defs)

text \<open>
  C6 (as the code has it). If the list identifier names no list of the caller, then
  \<^verbatim>\<open>get_items\<close>, \<^verbatim>\<open>update_item\<close> and \<^verbatim>\<open>update_list\<close> answer the same in the given
  tables (where the list may exist under another owner) and in the tables where it does
  not exist at all; the answer is 404 for \<^verbatim>\<open>get_items\<close> and \<^verbatim>\<open>update_item\<close>, and
  for \<^verbatim>\<open>update_list\<close> it is 404 unless \<^verbatim>\<open>open\<close> is true and the caller has an open
  list, when it is 400 in both; never 403. Likewise an item identifier that names no item
  of a list of the caller is answered by \<^verbatim>\<open>update_item\<close> with 404, as when the item
  does not exist. (Identifiers are well-formed here.)
\<close>

theorem foreign_indistinguishable_from_absent:
  "(\<not> owns_list u list_id s \<longrightarrow>
      get_items list_id u s = Inl (HTTPException 404 ''List not found'') \<and>
      get_items list_id u (without_list list_id s) = Inl (HTTPException 404 ''List not found'') \<and>
      update_item (Wellformed list_id) item_id item_body u s =
        Inl (HTTPException 404 ''Item not found'') \<and>
      update_item (Wellformed list_id) item_id item_body u (without_list list_id s) =
        Inl (HTTPException 404 ''Item not found'') \<and>
      update_list body list_id u (without_list list_id s) = update_list body list_id u s \<and>
      update_list body list_id u s =
        (if ss_open body = Some True \<and> open_shopping_list u s \<noteq> None
         then Inl (HTTPException 400 ''Cannot have more than one open list'')
         else Inl (HTTPException 404 ''List not found''))) \<and>
   (item_out_of_reach u iid s \<longrightarrow>
      update_item (Wellformed lid) (Wellformed iid) item_body u s =
        Inl (HTTPException 404 ''Item not found'') \<and>
      update_item (Wellformed lid) (Wellformed iid) item_body u (without_item iid s) =
        Inl (HTTPException 404 ''Item not found''))"
proof (intro conjI impI)
  assume a: "\<not> owns_list u list_id s"
  note b = without_list_unowned [OF a]
  from a show "get_items list_id u s = Inl (HTTPException 404 ''List not found'')"
    by (rule get_items_unowned)
  from b(1) show "get_items list_id u (without_list list_id s) =
      Inl (HTTPException 404 ''List not found'')"
    by (rule get_items_unowned)
  from a show "update_item (Wellformed list_id) item_id item_body u s =
      Inl (HTTPException 404 ''Item not found'')"
    by (rule update_item_unowned)
  from b(1) show "update_item (Wellformed list_id) item_id item_body u (without_list list_id s) =
      Inl (HTTPException 404 ''Item not found'')"
    by (rule update_item_unowned)
  show "update_list body list_id u (without_list list_id s) = update_list body list_id u s"
    unfolding update_list_unowned [OF a] update_list_unowned [OF b(1)] using b(2) by simp
  from a show "update_list body list_id u s =
      (if ss_open body = Some True \<and> open_shopping_list u s \<noteq> None
       then Inl (HTTPException 400 ''Cannot have more than one open list'')
       else Inl (HTTPException 404 ''List not found''))"
    by (rule update_list_unowned)
next
  assume "item_out_of_reach u iid s"
  then show "update_item (Wellformed lid) (Wellformed iid) item_body u s =
      Inl (HTTPException 404 ''Item not found'')"
    by (rule update_item_out_of_reach)
next
  show "update_item (Wellformed lid) (Wellformed iid) item_body u (without_item iid s) =
      Inl (HTTPException 404 ''Item not found'')"
    using without_item_out_of_reach by (rule update_item_out_of_reach)
qed

theorem foreign_indistinguishable_from_absent_witness:
  "\<not> owns_list ex_user 13 ex_session \<and> item_out_of_reach ex_user 23 ex_session \<and>
   ex_foreign_list \<in> set (shoppinglist_table ex_session) \<and>
   ex_foreign_milk \<in> set (item_table ex_session) \<and>
   get_items 13 ex_user ex_session = Inl (HTTPException 404 ''List not found'') \<and>
   get_items 13 ex_user (without_list 13 ex_session) = Inl (HTTPException 404 ''List not found'') \<and>
   update_item (Wellformed 13) (Wellformed 23) ex_rename ex_user ex_session =
     Inl (HTTPException 404 ''Item not found'') \<and>
   update_list ex_close 13 ex_user (without_list 13 ex_session) =
     update_list ex_close 13 ex_user ex_session \<and>
   update_list ex_close 13 ex_user ex_session = Inl (HTTPException 404 ''List not found'') \<and>
   update_item (Wellformed 11) (Wellformed 23) ex_rename ex_user ex_session =
     Inl (HTTPException 404 ''Item not found'') \<and>
   update_item (Wellformed 11) (Wellformed 23) ex_rename ex_user (without_item 23 ex_session) =
     Inl (HTTPException 404 ''Item not found'')"
proof -
  have h1: "\<not> owns_list ex_user 13 ex_session" by (simp add: owns_list_def ex_defs)
  have h2: "item_out_of_reach ex_user 23 ex_session"
    by (simp add: item_out_of_reach_def owns_list_def ex_defs)
  have h3: "ex_foreign_list \<in> set (shoppinglist_table ex_session)"
    and h4: "ex_foreign_milk \<in> set (item_table ex_session)"
    by (simp_all add: ex_session_def)
  have c: "ss_open ex_close \<noteq> Some True" by (simp add: ex_body_defs)
  from foreign_indistinguishable_from_absent
         [of ex_user 13 ex_session "Wellformed 23" ex_rename ex_close 23 11]
    h1 h2 h3 h4 c
  show ?thesis by simp
qed

lemma item_of_list_Some:
  "item_of_list item_id list_id s = Some i \<Longrightarrow>
     i \<in> set (item_table s) \<and> it_id i = item_id \<and> it_list_id i = list_id"
  by (auto simp: item_of_list_def find_Some_iff)

lemma item_table_commit_item_open:
  "item_table (commit_item_open pk b s) =
     map (\<lambda>r. if it_id r = pk then r\<lparr>it_open := b\<rparr> else r) (item_table s)"
  by (simp add: commit_item_open_def)

lemma update_item_ignores_name:
  "update_item list_id item_id (body\<lparr>si_name := n\<rparr>) u s = update_item list_id item_id body u s"
  by (simp add: update_item_def split: sum.splits option.splits)

text \<open>
  C7. A successful \<^verbatim>\<open>update_item\<close> changes nothing but \<^verbatim>\<open>open\<close> flags of the item
  table: every stored name is as before, the rows agree with the old ones up to
  \<^verbatim>\<open>open\<close>, the list table is untouched, the returned item is a stored item with the
  submitted flag, and the submitted name has no influence on the result.
\<close>

theorem update_item_keeps_name:
  assumes "update_item list_id item_id body u s = Inr (i, s')"
  shows "map it_name (item_table s') = map it_name (item_table s) \<and>
         map (\<lambda>r. r\<lparr>it_open := c\<rparr>) (item_table s') = map (\<lambda>r. r\<lparr>it_open := c\<rparr>) (item_table s) \<and>
         shoppinglist_table s' = shoppinglist_table s \<and>
         (\<exists>i0 \<in> set (item_table s). i = i0\<lparr>it_open := si_open body\<rparr>) \<and>
         update_item list_id item_id (body\<lparr>si_name := n\<rparr>) u s = Inr (i, s')"
proof -
  from update_item_Inr [OF assms] obtain lid iid i0 where
    i0: "item_of_list iid lid s = Some i0" and i: "i = i0\<lparr>it_open := si_open body\<rparr>" and
    s': "s' = commit_item_open iid (si_open body) s"
    by blast
  have "map it_name (item_table s') = map it_name (item_table s)"
    unfolding s' item_table_commit_item_open by (simp add: comp_def if_distrib cong: if_cong)
  moreover have "map (\<lambda>r. r\<lparr>it_open := c\<rparr>) (item_table s') = map (\<lambda>r. r\<lparr>it_open := c\<rparr>) (item_table s)"
    unfolding s' item_table_commit_item_open by (simp add: comp_def if_distrib cong: if_cong)
  moreover have "shoppinglist_table s' = shoppinglist_table s"
    unfolding s' by (simp add: commit_item_open_ids)
  moreover from item_of_list_Some [OF i0] i
  have "\<exists>i0 \<in> set (item_table s). i = i0\<lparr>it_open := si_open body\<rparr>" by blast
  ultimately show ?thesis using assms by (simp add: update_item_ignores_name)
qed

lemma ex_update_item:
  "update_item (Wellformed 11) (Wellformed 21) ex_rename ex_user ex_session =
     Inr (ex_milk\<lparr>it_open := False\<rparr>, ex_after_rename)"
  by (simp add: update_item_def ex_after_rename_def query_defs ex_defs ex_body_defs)

theorem update_item_keeps_name_witness:
  "update_item (Wellformed 11) (Wellformed 21) ex_rename ex_user ex_session =
     Inr (ex_milk\<lparr>it_open := False\<rparr>, ex_after_rename) \<and>
   si_name ex_rename = ''Butter'' \<and>
   map it_name (item_table ex_session) = [''Milk'', ''Eggs'', ''Oat milk''] \<and>
   map it_name (item_table ex_after_rename) = [''Milk'', ''Eggs'', ''Oat milk'']"
proof -
  have "map it_name (item_table ex_session) = [''Milk'', ''Eggs'', ''Oat milk'']"
    by (simp add: ex_defs)
  with update_item_keeps_name [OF ex_update_item] ex_update_item show ?thesis
    by (simp add: ex_body_defs)
qed

lemma find_map_stable:
  "(\<And>x. P (f x) = P x) \<Longrightarrow> find P (map f xs) = map_option f (find P xs)"
  by (induction xs) auto

lemma owned_shopping_list_commit:
  "owned_shopping_list list_id u (commit_list_open pk b s) =
     map_option (\<lambda>r. if sl_id r = pk then r\<lparr>sl_open := b\<rparr> else r) (owned_shopping_list list_id u s)"
  unfolding owned_shopping_list_def shoppinglist_table_commit_list_open
  by (rule find_map_stable) simp

lemma item_of_list_commit:
  "item_of_list item_id list_id (commit_item_open pk b s) =
     map_option (\<lambda>r. if it_id r = pk then r\<lparr>it_open := b\<rparr> else r) (item_of_list item_id list_id s)"
  unfolding item_of_list_def item_table_commit_item_open
  by (rule find_map_stable) simp

lemma ex_update_list:
  "update_list ex_close 11 ex_user ex_session =
     Inr ((200, ex_open_list\<lparr>sl_open := False\<rparr>), ex_after_close)"
  by (simp add: update_list_def ex_after_close_def query_defs ex_defs ex_body_defs)

text \<open>
  Closing a list and closing an item succeed and leave the \<^verbatim>\<open>updated\<close> timestamps at
  their stored value 20.
\<close>

theorem update_timestamp_counterexample:
  "update_list ex_close 11 ex_user ex_session =
     Inr ((200, ex_open_list\<lparr>sl_open := False\<rparr>), ex_after_close) \<and>
   sl_updated ex_open_list = 20 \<and>
   map sl_updated (shoppinglist_table ex_session) = [20, 30, 40] \<and>
   sl_updated (ex_open_list\<lparr>sl_open := False\<rparr>) = 20 \<and>
   map sl_updated (shoppinglist_table ex_after_close) = [20, 30, 40] \<and>
   update_item (Wellformed 11) (Wellformed 21) ex_rename ex_user ex_session =
     Inr (ex_milk\<lparr>it_open := False\<rparr>, ex_after_rename) \<and>
   it_updated ex_milk = 20 \<and>
   it_updated (ex_milk\<lparr>it_open := False\<rparr>) = 20 \<and>
   map it_updated (item_table ex_after_rename) = [20, 20, 40]"
  by (simp add: ex_update_list ex_update_item)
     (simp add: ex_after_close_def ex_after_rename_def ex_defs)

text \<open>
  C8 (as the code has it). A successful \<^verbatim>\<open>update_list\<close> with an \<^verbatim>\<open>open\<close> value sets
  the list's \<^verbatim>\<open>open\<close> flag to it, and a successful \<^verbatim>\<open>update_item\<close> sets the item's
  \<^verbatim>\<open>open\<close> flag; the returned row is the stored row, and the \<^verbatim>\<open>updated\<close> timestamp
  of every row, the changed one included, stays as it was.
\<close>

theorem update_sets_open_keeps_timestamp:
  "(update_list body list_id u s = Inr ((code, l), s') \<and> ss_open body = Some b \<longrightarrow>
      code = 200 \<and> sl_open l = b \<and>
      (\<exists>l0. owned_shopping_list list_id u s = Some l0 \<and> l = l0\<lparr>sl_open := b\<rparr> \<and>
            sl_updated l = sl_updated l0) \<and>
      owned_shopping_list list_id u s' = Some l \<and>
      map sl_updated (shoppinglist_table s') = map sl_updated (shoppinglist_table s)) \<and>
   (update_item list_text item_text item_body u t = Inr (i, t') \<longrightarrow>
      it_open i = si_open item_body \<and>
      (\<exists>lid iid i0. list_text = Wellformed lid \<and> item_text = Wellformed iid \<and>
            item_of_list iid lid t = Some i0 \<and> i = i0\<lparr>it_open := si_open item_body\<rparr> \<and>
            it_updated i = it_updated i0 \<and> item_of_list iid lid t' = Some i) \<and>
      map it_updated (item_table t') = map it_updated (item_table t))"
proof (intro conjI impI)
  assume a: "update_list body list_id u s = Inr ((code, l), s') \<and> ss_open body = Some b"
  with update_list_Inr [of body list_id u s code l s'] obtain l0 where
    l0: "owned_shopping_list list_id u s = Some l0" and code: "code = 200" and
    l: "l = l0\<lparr>sl_open := b\<rparr>" and s': "s' = commit_list_open list_id b s"
    by auto
  from owned_shopping_list_Some [OF l0] have id: "sl_id l0 = list_id" by simp
  show "code = 200" by (rule code)
  show "sl_open l = b" by (simp add: l)
  show "\<exists>l0. owned_shopping_list list_id u s = Some l0 \<and> l = l0\<lparr>sl_open := b\<rparr> \<and>
          sl_updated l = sl_updated l0"
    using l0 l by simp
  show "owned_shopping_list list_id u s' = Some l"
    unfolding s' owned_shopping_list_commit using l0 l id by simp
  show "map sl_updated (shoppinglist_table s') = map sl_updated (shoppinglist_table s)"
    unfolding s' shoppinglist_table_commit_list_open
    by (simp add: comp_def if_distrib cong: if_cong)
next
  assume a: "update_item list_text item_text item_body u t = Inr (i, t')"
  from update_item_Inr [OF a] obtain lid iid i0 where
    lt: "list_text = Wellformed lid" "item_text = Wellformed iid" and
    i0: "item_of_list iid lid t = Some i0" and i: "i = i0\<lparr>it_open := si_open item_body\<rparr>" and
    t': "t' = commit_item_open iid (si_open item_body) t"
    by blast
  from item_of_list_Some [OF i0] have id: "it_id i0 = iid" by simp
  show "it_open i = si_open item_body" by (simp add: i)
  have "item_of_list iid lid t' = Some i"
    unfolding t' item_of_list_commit using i0 i id by simp
  with lt i0 i
  show "\<exists>lid iid i0. list_text = Wellformed lid \<and> item_text = Wellformed iid \<and>
          item_of_list iid lid t = Some i0 \<and> i = i0\<lparr>it_open := si_open item_body\<rparr> \<and>
          it_updated i = it_updated i0 \<and> item_of_list iid lid t' = Some i"
    by simp
  show "map it_updated (item_table t') = map it_updated (item_table t)"
    unfolding t' item_table_commit_item_open
    by (simp add: comp_def if_distrib cong: if_cong)
qed

theorem update_sets_open_keeps_timestamp_witness:
  "update_list ex_close 11 ex_user ex_session =
     Inr ((200, ex_open_list\<lparr>sl_open := False\<rparr>), ex_after_close) \<and>
   ss_open ex_close = Some False \<and>
   update_item (Wellformed 11) (Wellformed 21) ex_rename ex_user ex_session =
     Inr (ex_milk\<lparr>it_open := False\<rparr>, ex_after_rename) \<and>
   owned_shopping_list 11 ex_user ex_after_close = Some (ex_open_list\<lparr>sl_open := False\<rparr>) \<and>
   map sl_updated (shoppinglist_table ex_after_close) = map sl_updated (shoppinglist_table ex_session) \<and>
   map it_updated (item_table ex_after_rename) = map it_updated (item_table ex_session)"
proof -
  have h: "ss_open ex_close = Some False" by (simp add: ex_body_defs)
  from update_sets_open_keeps_timestamp
         [of ex_close 11 ex_user ex_session 200 "ex_open_list\<lparr>sl_open := False\<rparr>" ex_after_close
             False "Wellformed 11" "Wellformed 21" ex_rename ex_session
             "ex_milk\<lparr>it_open := False\<rparr>" ex_after_rename]
    ex_update_list ex_update_item h
  show ?thesis by simp
qed

lemma update_item_malformed_list_id:
  "update_item (Malformed t) item_id body u s = Inl (Unhandled ValueError)"
  by (simp add: update_item_def)

lemma update_item_malformed_item_id:
  "owns_list u lid s \<Longrightarrow>
     update_item (Wellformed lid) (Malformed t) body u s = Inl (Unhandled ValueError)"
  using owned_shopping_list_None [of lid u s]
  by (auto simp: update_item_def split: option.splits)

lemma create_list_null_items:
  "ss_items body = None \<Longrightarrow> open_shopping_list u s = None \<Longrightarrow>
     create_list d uuid4 body u s = Inl (Unhandled AssertionError)"
  by (simp add: create_list_def)

text \<open>
  C9. Not every input ends in a defined error: \<^verbatim>\<open>update_item\<close> converts its path
  texts with \<^verbatim>\<open>uuid.UUID\<close> itself, so a text that is no UUID raises
  \<^verbatim>\<open>ValueError\<close>, and \<^verbatim>\<open>create_list\<close> asserts that \<^verbatim>\<open>items\<close> is not
  \<^verbatim>\<open>None\<close>, which a body with \<^verbatim>\<open>"items": null\<close> passes validation to violate.
  \<^verbatim>\<open>update_list\<close>, which declares its path parameter as a UUID, answers the same text
  with 422.
\<close>

theorem malformed_input_unhandled:
  "update_item (Malformed ''not-a-uuid'') (Wellformed 21) ex_rename ex_user ex_session =
     Inl (Unhandled ValueError) \<and>
   update_item (Wellformed 11) (Malformed ''not-a-uuid'') ex_rename ex_user ex_session =
     Inl (Unhandled ValueError) \<and>
   validate_SubmitShoppingList ex_no_items = Inr ex_no_items \<and>
   create_list ex_defaults ex_uuid4 ex_no_items ex_user ex_closed_session =
     Inl (Unhandled AssertionError) \<and>
   post_list ex_defaults ex_uuid4 ex_no_items ex_user ex_closed_session =
     Inl (Unhandled AssertionError) \<and>
   put_list ex_close (Malformed ''not-a-uuid'') ex_user ex_session = Inl RequestValidationError"
  by (simp add: update_item_def create_list_def post_list_def put_list_def
        validate_SubmitShoppingList_def ex_no_items_def query_defs ex_defs ex_body_defs)

lemma new_items_fields:
  "map it_open (new_items d uuid4 list_id k submitted) = map si_open submitted"
  "map it_name (new_items d uuid4 list_id k submitted) = map si_name submitted"
  "\<forall>i \<in> set (new_items d uuid4 list_id k submitted). it_list_id i = list_id"
  by (induction submitted arbitrary: k) simp_all

lemma create_list_ignores_open:
  "create_list d uuid4 (body\<lparr>ss_open := b\<rparr>) u s = create_list d uuid4 body u s"
  by (simp add: create_list_def)

text \<open>
  C10. The list stored and returned by a successful \<^verbatim>\<open>create_list\<close> is open; it is the
  one row appended to the list table; the appended items carry the submitted names and
  \<^verbatim>\<open>open\<close> flags in order and belong to the new list; and any other submitted
  list-level \<^verbatim>\<open>open\<close> value gives the same result.
\<close>

theorem create_list_always_open:
  assumes "create_list d uuid4 body u s = Inr (l, s')"
  shows "sl_open l = True \<and>
         shoppinglist_table s' = shoppinglist_table s @ [l] \<and>
         (\<exists>submitted its. ss_items body = Some submitted \<and>
            item_table s' = item_table s @ its \<and>
            map it_open its = map si_open submitted \<and>
            map it_name its = map si_name submitted \<and>
            (\<forall>i \<in> set its. it_list_id i = sl_id l)) \<and>
         create_list d uuid4 (body\<lparr>ss_open := b\<rparr>) u s = Inr (l, s')"
proof -
  note c = create_list_Inr [OF assms]
  from c(3) obtain submitted where
    sub: "ss_items body = Some submitted" and
    new: "commit_new l (new_items d uuid4 (uuid4 0) 1 submitted) s = Inr s'"
    by blast
  from c(2) have opn: "sl_open l = True" and id: "sl_id l = uuid4 0" by simp_all
  note n = commit_new_Inr [OF new]
  have "\<exists>its. item_table s' = item_table s @ its \<and>
          map it_open its = map si_open submitted \<and>
          map it_name its = map si_name submitted \<and>
          (\<forall>i \<in> set its. it_list_id i = sl_id l)"
    using n(2) new_items_fields [of d uuid4 "uuid4 0" 1 submitted] id by auto
  with sub opn n(1) assms show ?thesis
    by (simp add: create_list_ignores_open)
qed

lemma ex_create_list:
  "create_list ex_defaults ex_uuid4 ex_submit ex_user ex_closed_session =
     Inr (ex_created, ex_after_create)"
  by (simp add: create_list_def Let_def ex_created_def ex_after_create_def query_defs ex_defs)

theorem create_list_always_open_witness:
  "create_list ex_defaults ex_uuid4 ex_submit ex_user ex_closed_session =
     Inr (ex_created, ex_after_create) \<and>
   ss_open ex_submit = Some False \<and>
   sl_open ex_created = True \<and>
   create_list ex_defaults ex_uuid4 (ex_submit\<lparr>ss_open := None\<rparr>) ex_user ex_closed_session =
     Inr (ex_created, ex_after_create) \<and>
   map it_open (drop 3 (item_table ex_after_create)) = [True, False]"
proof -
  have "ss_open ex_submit = Some False" by (simp add: ex_submit_def)
  moreover have "map it_open (drop 3 (item_table ex_after_create)) = [True, False]"
    by (simp add: ex_after_create_def)
  ultimately show ?thesis
    using create_list_always_open [OF ex_create_list, of None] ex_create_list by simp
qed

end
